theory Spec2Isabelle
  imports Main
begin

section \<open>Data model of package log\<close>

text \<open>
  \<^verbatim>\<open>type LogType string\<close>: a log type is any string; the package names six of them.
  Go strings are byte sequences, modelled as \<open>string\<close> (a list of 8-bit characters).
\<close>

type_synonym LogType = string

definition Info :: LogType where "Info = ''INF''"
definition Warn :: LogType where "Warn = ''WRN''"
definition Error :: LogType where "Error = ''ERR''"
definition Fatal :: LogType where "Fatal = ''FTL''"
definition Success :: LogType where "Success = ''SUC''"
definition App :: LogType where "App = ''''"

definition DelimMsgType :: string where "DelimMsgType = '': ''"

text \<open>\<^verbatim>\<open>type LogInfo struct { Type LogType; Prefix string; Message string }\<close>\<close>

record LogInfo =
  Type :: LogType
  Prefix :: string
  Message :: string

text \<open>
  \<^verbatim>\<open>type Log struct { Prefix string; ln []LogInfo; osIsWin bool }\<close>.
  The slice \<open>ln\<close> is modelled by the sequence of its elements; the store-level model of
  the slice (backing array, offset, length, capacity) is developed separately below, where
  sharing between a log and its callers matters.
\<close>

record Log =
  Prefix :: string
  ln :: "LogInfo list"
  osIsWin :: bool

section \<open>Dominant message type\<close>

text \<open>
  The four local counters of \<^verbatim>\<open>getDominantNoteType\<close>. They are Go \<^verbatim>\<open>int\<close>s that start at
  zero and are incremented at most once per element of the slice; the length of a Go
  slice is itself an \<^verbatim>\<open>int\<close>, so no counter can wrap around and unbounded integers
  model them exactly.
\<close>

record counters =
  nfo :: int
  wrn :: int
  err :: int
  suc :: int

text \<open>The \<^verbatim>\<open>switch msg.Type\<close> of the loop body; a type matching no case changes nothing.\<close>

definition tally :: "LogInfo \<Rightarrow> counters \<Rightarrow> counters" where
  "tally msg c =
     (if Type msg = Info then c\<lparr>nfo := nfo c + 1\<rparr>
      else if Type msg = Warn then c\<lparr>wrn := wrn c + 1\<rparr>
      else if Type msg = Error then c\<lparr>err := err c + 1\<rparr>
      else if Type msg = Success then c\<lparr>suc := suc c + 1\<rparr>
      else c)"

text \<open>The \<^verbatim>\<open>for _, msg := range *msgs\<close> loop.\<close>

fun tally_all :: "LogInfo list \<Rightarrow> counters \<Rightarrow> counters" where
  "tally_all [] c = c"
| "tally_all (msg # msgs) c = tally_all msgs (tally msg c)"

definition getDominantNoteType :: "LogInfo list \<Rightarrow> LogType" where
  "getDominantNoteType msgs =
     (let c = tally_all msgs \<lparr>nfo = 0, wrn = 0, err = 0, suc = 0\<rparr> in
      if nfo c > wrn c \<and> nfo c > err c \<and> nfo c > suc c then Info
      else if wrn c > nfo c \<and> wrn c > err c \<and> wrn c > suc c then Warn
      else if err c > nfo c \<and> err c > wrn c \<and> err c > suc c then Error
      else if suc c > nfo c \<and> suc c > wrn c \<and> suc c > err c then Success
      else App)"

definition Prevailing :: "Log \<Rightarrow> LogType" where
  "Prevailing r = getDominantNoteType (ln r)"

text \<open>
  The specification's tally: the number of stored messages whose type is \<open>t\<close>.
\<close>

definition count_of :: "LogType \<Rightarrow> LogInfo list \<Rightarrow> int" where
  "count_of t msgs = int (length (filter (\<lambda>m. Type m = t) msgs))"

section \<open>Construction, adding and removing messages\<close>

text \<open>
  \<^verbatim>\<open>NewLog\<close> reads the platform constant \<^verbatim>\<open>runtime.GOOS\<close>; the model takes it as the
  argument \<open>GOOS\<close>.
\<close>

definition NewLog :: "string \<Rightarrow> string \<Rightarrow> Log" where
  "NewLog GOOS prefix = \<lparr>Log.Prefix = prefix, ln = [], osIsWin = (GOOS = ''windows'')\<rparr>"

text \<open>
  \<^verbatim>\<open>addMessage\<close> trims the text with the standard library's \<^verbatim>\<open>strings.TrimSpace\<close>, which
  is not code of this package: the model takes it as the argument \<open>TrimSpace\<close>. The
  function appends one value to the slice it is given a pointer to; the model returns the
  new contents.
\<close>

definition addMessage ::
    "(string \<Rightarrow> string) \<Rightarrow> LogInfo list \<Rightarrow> string \<Rightarrow> string \<Rightarrow> LogType \<Rightarrow> LogInfo list" where
  "addMessage TrimSpace nt prefix msg typ =
     (let msg = TrimSpace msg in
      nt @ [\<lparr>Type = typ, LogInfo.Prefix = prefix, Message = msg\<rparr>])"

text \<open>
  The five adding methods: each is a loop over its variadic argument that calls
  \<^verbatim>\<open>addMessage(&r.ln, r.Prefix, m, T)\<close>, reading the field \<open>Prefix\<close> at every turn.
\<close>

fun AddInfo :: "(string \<Rightarrow> string) \<Rightarrow> Log \<Rightarrow> string list \<Rightarrow> Log" where
  "AddInfo TrimSpace r [] = r"
| "AddInfo TrimSpace r (m # msg) =
     AddInfo TrimSpace (r\<lparr>ln := addMessage TrimSpace (ln r) (Log.Prefix r) m Info\<rparr>) msg"

fun AddWarning :: "(string \<Rightarrow> string) \<Rightarrow> Log \<Rightarrow> string list \<Rightarrow> Log" where
  "AddWarning TrimSpace r [] = r"
| "AddWarning TrimSpace r (m # msg) =
     AddWarning TrimSpace (r\<lparr>ln := addMessage TrimSpace (ln r) (Log.Prefix r) m Warn\<rparr>) msg"

fun AddError :: "(string \<Rightarrow> string) \<Rightarrow> Log \<Rightarrow> string list \<Rightarrow> Log" where
  "AddError TrimSpace r [] = r"
| "AddError TrimSpace r (m # msg) =
     AddError TrimSpace (r\<lparr>ln := addMessage TrimSpace (ln r) (Log.Prefix r) m Error\<rparr>) msg"

fun AddSuccess :: "(string \<Rightarrow> string) \<Rightarrow> Log \<Rightarrow> string list \<Rightarrow> Log" where
  "AddSuccess TrimSpace r [] = r"
| "AddSuccess TrimSpace r (m # msg) =
     AddSuccess TrimSpace (r\<lparr>ln := addMessage TrimSpace (ln r) (Log.Prefix r) m Success\<rparr>) msg"

fun AddAppMsg :: "(string \<Rightarrow> string) \<Rightarrow> Log \<Rightarrow> string list \<Rightarrow> Log" where
  "AddAppMsg TrimSpace r [] = r"
| "AddAppMsg TrimSpace r (m # msg) =
     AddAppMsg TrimSpace (r\<lparr>ln := addMessage TrimSpace (ln r) (Log.Prefix r) m App\<rparr>) msg"

text \<open>\<^verbatim>\<open>r.ln = append(r.ln, ln...)\<close>\<close>

definition Append :: "Log \<Rightarrow> LogInfo list \<Rightarrow> Log" where
  "Append r xs = r\<lparr>ln := ln r @ xs\<rparr>"

text \<open>\<^verbatim>\<open>r.ln = []LogInfo{}\<close>\<close>

definition Clear :: "Log \<Rightarrow> Log" where
  "Clear r = r\<lparr>ln := []\<rparr>"

text \<open>Assignment to the exported field: \<^verbatim>\<open>r.Prefix = p\<close>.\<close>

definition SetPrefix :: "Log \<Rightarrow> string \<Rightarrow> Log" where
  "SetPrefix r p = r\<lparr>Log.Prefix := p\<rparr>"

section \<open>Queries\<close>

text \<open>
  The four predicates have a value receiver and assign nothing: each is a function of the
  log that returns a boolean and no new log. Each loop returns at the first match.
\<close>

fun HasErrors_scan :: "LogInfo list \<Rightarrow> bool" where
  "HasErrors_scan [] = False"
| "HasErrors_scan (x # xs) = (if Type x = Error then True else HasErrors_scan xs)"

definition HasErrors :: "Log \<Rightarrow> bool" where
  "HasErrors r = HasErrors_scan (ln r)"

fun HasWarnings_scan :: "LogInfo list \<Rightarrow> bool" where
  "HasWarnings_scan [] = False"
| "HasWarnings_scan (x # xs) = (if Type x = Warn then True else HasWarnings_scan xs)"

definition HasWarnings :: "Log \<Rightarrow> bool" where
  "HasWarnings r = HasWarnings_scan (ln r)"

fun HasInfos_scan :: "LogInfo list \<Rightarrow> bool" where
  "HasInfos_scan [] = False"
| "HasInfos_scan (x # xs) = (if Type x = Info then True else HasInfos_scan xs)"

definition HasInfos :: "Log \<Rightarrow> bool" where
  "HasInfos r = HasInfos_scan (ln r)"

fun HasSucceses_scan :: "LogInfo list \<Rightarrow> bool" where
  "HasSucceses_scan [] = False"
| "HasSucceses_scan (x # xs) = (if Type x = Success then True else HasSucceses_scan xs)"

definition HasSucceses :: "Log \<Rightarrow> bool" where
  "HasSucceses r = HasSucceses_scan (ln r)"

definition Notes :: "Log \<Rightarrow> LogInfo list" where
  "Notes r = ln r"

section \<open>Rendering\<close>

text \<open>\<^verbatim>\<open>func (lni *LogInfo) ToString() string\<close>, with the local \<open>td\<close> threaded through.\<close>

definition LogInfo_ToString :: "LogInfo \<Rightarrow> string" where
  "LogInfo_ToString lni =
     (let td = '''';
          td = (if Type lni \<noteq> App then
                  (let td = td @ Type lni;
                       td = (if LogInfo.Prefix lni \<noteq> ''''
                             then td @ (''['' @ LogInfo.Prefix lni @ '']'') else td)
                   in td @ DelimMsgType)
                else td)
      in td @ Message lni)"

text \<open>
  \<^verbatim>\<open>func (r *Log) ToString() string\<close>: the line feed is chosen from \<open>osIsWin\<close>, then the
  loop writes every rendered message followed by the line feed into the builder \<open>sb\<close>.
\<close>

fun write_lines :: "string \<Rightarrow> LogInfo list \<Rightarrow> string \<Rightarrow> string" where
  "write_lines lf [] sb = sb"
| "write_lines lf (v # vs) sb = write_lines lf vs (sb @ (LogInfo_ToString v @ lf))"

definition Log_ToString :: "Log \<Rightarrow> string" where
  "Log_ToString r =
     (let lf = [CHR 0x0A];
          lf = (if osIsWin r then [CHR 0x0D, CHR 0x0A] else lf)
      in write_lines lf (ln r) '''')"

section \<open>Sequences of calls\<close>

text \<open>
  What a client can do to a log it holds: call a method that writes to it, or assign the
  exported field \<open>Prefix\<close>. A history is the list of such calls, run from left to right.
\<close>

datatype call =
    CallAddInfo "string list"
  | CallAddWarning "string list"
  | CallAddError "string list"
  | CallAddSuccess "string list"
  | CallAddAppMsg "string list"
  | CallAppend "LogInfo list"
  | CallClear
  | AssignPrefix string

fun do_call :: "(string \<Rightarrow> string) \<Rightarrow> Log \<Rightarrow> call \<Rightarrow> Log" where
  "do_call TrimSpace r (CallAddInfo msg) = AddInfo TrimSpace r msg"
| "do_call TrimSpace r (CallAddWarning msg) = AddWarning TrimSpace r msg"
| "do_call TrimSpace r (CallAddError msg) = AddError TrimSpace r msg"
| "do_call TrimSpace r (CallAddSuccess msg) = AddSuccess TrimSpace r msg"
| "do_call TrimSpace r (CallAddAppMsg msg) = AddAppMsg TrimSpace r msg"
| "do_call TrimSpace r (CallAppend xs) = Append r xs"
| "do_call TrimSpace r CallClear = Clear r"
| "do_call TrimSpace r (AssignPrefix p) = SetPrefix r p"

fun do_calls :: "(string \<Rightarrow> string) \<Rightarrow> Log \<Rightarrow> call list \<Rightarrow> Log" where
  "do_calls TrimSpace r [] = r"
| "do_calls TrimSpace r (c # cs) = do_calls TrimSpace (do_call TrimSpace r c) cs"

text \<open>
  The calls that only append to the log, and the messages such a call hands to a log whose
  field \<open>Prefix\<close> holds \<open>p\<close>, in the order of its arguments.
\<close>

fun is_append :: "call \<Rightarrow> bool" where
  "is_append CallClear = False"
| "is_append (AssignPrefix p) = False"
| "is_append c = True"

fun appended :: "(string \<Rightarrow> string) \<Rightarrow> string \<Rightarrow> call \<Rightarrow> LogInfo list" where
  "appended T p (CallAddInfo ss) =
     map (\<lambda>s. \<lparr>Type = Info, LogInfo.Prefix = p, Message = T s\<rparr>) ss"
| "appended T p (CallAddWarning ss) =
     map (\<lambda>s. \<lparr>Type = Warn, LogInfo.Prefix = p, Message = T s\<rparr>) ss"
| "appended T p (CallAddError ss) =
     map (\<lambda>s. \<lparr>Type = Error, LogInfo.Prefix = p, Message = T s\<rparr>) ss"
| "appended T p (CallAddSuccess ss) =
     map (\<lambda>s. \<lparr>Type = Success, LogInfo.Prefix = p, Message = T s\<rparr>) ss"
| "appended T p (CallAddAppMsg ss) =
     map (\<lambda>s. \<lparr>Type = App, LogInfo.Prefix = p, Message = T s\<rparr>) ss"
| "appended T p (CallAppend xs) = xs"
| "appended T p CallClear = []"
| "appended T p (AssignPrefix q) = []"

section \<open>The slice in the store\<close>

text \<open>
  A Go slice is a header (backing array, offset into it, length, capacity); several headers
  can share one backing array. The store is the list of the backing arrays allocated so
  far, an address being a position in it. This level is needed to follow a slice that has
  left the log: \<^verbatim>\<open>Notes\<close> returns the header \<open>r.ln\<close> itself.
\<close>

type_synonym addr = nat

record slice =
  arr :: addr
  off :: nat
  len :: nat
  cap :: nat

type_synonym store = "LogInfo list list"

text \<open>The zero value of \<^verbatim>\<open>LogInfo\<close>, which fills the unused capacity of a new array.\<close>

definition zero_LogInfo :: LogInfo where
  "zero_LogInfo = \<lparr>Type = '''', LogInfo.Prefix = '''', Message = ''''\<rparr>"

text \<open>A header is well formed in a store when its window lies inside an allocated array.\<close>

definition wf_slice :: "store \<Rightarrow> slice \<Rightarrow> bool" where
  "wf_slice h s = (arr s < length h \<and> len s \<le> cap s \<and> off s + cap s \<le> length (h ! arr s))"

text \<open>The elements \<^verbatim>\<open>s[0], ..., s[len(s)-1]\<close> that a header denotes.\<close>

definition elems :: "store \<Rightarrow> slice \<Rightarrow> LogInfo list" where
  "elems h s = take (len s) (drop (off s) (h ! arr s))"

text \<open>
  The assignment \<^verbatim>\<open>s[i] = v\<close> made by whoever holds the header \<open>s\<close>: it writes into the
  backing array, and panics (\<open>None\<close>) when \<open>i\<close> is not below the length.
\<close>

definition slice_assign :: "store \<Rightarrow> slice \<Rightarrow> nat \<Rightarrow> LogInfo \<Rightarrow> store option" where
  "slice_assign h s i v =
     (if i < len s then Some (h[arr s := (h ! arr s)[off s + i := v]]) else None)"

text \<open>
  The built-in \<^verbatim>\<open>append(s, xs...)\<close>: when the capacity suffices the values are written in
  place behind the last element and the header only grows; otherwise a new array is
  allocated, the old elements and the new values are copied into it, and the header points
  there. The capacity of the new array is the runtime's choice, at least the length needed;
  the choice is the argument \<open>grow\<close> (old capacity, length needed).
\<close>

definition append_s ::
    "(nat \<Rightarrow> nat \<Rightarrow> nat) \<Rightarrow> store \<Rightarrow> slice \<Rightarrow> LogInfo list \<Rightarrow> store \<times> slice" where
  "append_s grow h s xs =
     (let n = len s + length xs in
      if n \<le> cap s then
        (h[arr s := take (off s + len s) (h ! arr s) @ xs @ drop (off s + n) (h ! arr s)],
         s\<lparr>len := n\<rparr>)
      else
        (let c = max n (grow (cap s) n) in
         (h @ [elems h s @ xs @ replicate (c - n) zero_LogInfo],
          \<lparr>arr = length h, off = 0, len = n, cap = c\<rparr>)))"

text \<open>The struct \<^verbatim>\<open>Log\<close> with its slice header, and the log it denotes in a store.\<close>

record Log_s =
  s_Prefix :: string
  s_ln :: slice
  s_osIsWin :: bool

definition stored :: "store \<Rightarrow> Log_s \<Rightarrow> Log" where
  "stored h r = \<lparr>Log.Prefix = s_Prefix r, ln = elems h (s_ln r), osIsWin = s_osIsWin r\<rparr>"

text \<open>
  \<^verbatim>\<open>NewLog\<close>, \<^verbatim>\<open>addMessage\<close>, \<^verbatim>\<open>AddInfo\<close>, \<^verbatim>\<open>Append\<close>, \<^verbatim>\<open>Clear\<close> and \<^verbatim>\<open>Notes\<close> on
  this level. \<^verbatim>\<open>make([]LogInfo, 0)\<close> and \<^verbatim>\<open>[]LogInfo{}\<close> give a header of length and
  capacity zero. The four other adding methods differ from \<^verbatim>\<open>AddInfo\<close> in the type
  constant only.
\<close>

definition NewLog_s :: "string \<Rightarrow> string \<Rightarrow> store \<Rightarrow> store \<times> Log_s" where
  "NewLog_s GOOS prefix h =
     (h @ [[]],
      \<lparr>s_Prefix = prefix, s_ln = \<lparr>arr = length h, off = 0, len = 0, cap = 0\<rparr>,
       s_osIsWin = (GOOS = ''windows'')\<rparr>)"

definition addMessage_s ::
    "(nat \<Rightarrow> nat \<Rightarrow> nat) \<Rightarrow> (string \<Rightarrow> string) \<Rightarrow> store \<Rightarrow> slice \<Rightarrow> string \<Rightarrow> string \<Rightarrow> LogType
      \<Rightarrow> store \<times> slice" where
  "addMessage_s grow TrimSpace h nt prefix msg typ =
     (let msg = TrimSpace msg in
      append_s grow h nt [\<lparr>Type = typ, LogInfo.Prefix = prefix, Message = msg\<rparr>])"

fun AddInfo_s ::
    "(nat \<Rightarrow> nat \<Rightarrow> nat) \<Rightarrow> (string \<Rightarrow> string) \<Rightarrow> store \<times> Log_s \<Rightarrow> string list
      \<Rightarrow> store \<times> Log_s" where
  "AddInfo_s grow TrimSpace (h, r) [] = (h, r)"
| "AddInfo_s grow TrimSpace (h, r) (m # msg) =
     (case addMessage_s grow TrimSpace h (s_ln r) (s_Prefix r) m Info of
        (h', nt') \<Rightarrow> AddInfo_s grow TrimSpace (h', r\<lparr>s_ln := nt'\<rparr>) msg)"

definition Append_s ::
    "(nat \<Rightarrow> nat \<Rightarrow> nat) \<Rightarrow> store \<times> Log_s \<Rightarrow> LogInfo list \<Rightarrow> store \<times> Log_s" where
  "Append_s grow hr xs =
     (case hr of (h, r) \<Rightarrow>
        (case append_s grow h (s_ln r) xs of (h', nt') \<Rightarrow> (h', r\<lparr>s_ln := nt'\<rparr>)))"

definition Clear_s :: "store \<times> Log_s \<Rightarrow> store \<times> Log_s" where
  "Clear_s hr =
     (case hr of (h, r) \<Rightarrow>
        (h @ [[]], r\<lparr>s_ln := \<lparr>arr = length h, off = 0, len = 0, cap = 0\<rparr>\<rparr>))"

definition Notes_s :: "Log_s \<Rightarrow> slice" where
  "Notes_s r = s_ln r"

section \<open>Concrete inputs\<close>

text \<open>
  \<^verbatim>\<open>strings.TrimSpace\<close> on text made of ASCII bytes: it removes the leading and the
  trailing bytes among tab, line feed, vertical tab, form feed, carriage return and space.
  (On other text the library also removes Unicode white space, which this instance leaves
  alone.) Every theorem below holds with any function in the place of \<open>TrimSpace\<close>; this
  instance serves to run the model on ASCII inputs.
\<close>

definition asciiSpace :: "char \<Rightarrow> bool" where
  "asciiSpace c = (c \<in> set [CHR 0x09, CHR 0x0A, CHR 0x0B, CHR 0x0C, CHR 0x0D, CHR 0x20])"

definition TrimSpace_ascii :: "string \<Rightarrow> string" where
  "TrimSpace_ascii s = rev (dropWhile asciiSpace (rev (dropWhile asciiSpace s)))"

text \<open>A capacity policy for running \<open>append_s\<close>: double the old capacity.\<close>

definition grow_double :: "nat \<Rightarrow> nat \<Rightarrow> nat" where
  "grow_double oldcap needed = 2 * oldcap"

text \<open>
  A log built on a platform other than Windows with prefix \<open>APP\<close>, holding one
  information, one error and one success message.
\<close>

definition example_log :: Log where
  "example_log =
     do_calls TrimSpace_ascii (NewLog ''linux'' ''APP'')
       [CallAddInfo [''started''], CallAddError [''disk full''], CallAddSuccess [''recovered'']]"

definition fatal_note :: LogInfo where
  "fatal_note = \<lparr>Type = Fatal, LogInfo.Prefix = ''APP'', Message = ''out of memory''\<rparr>"

text \<open>
  The store and the log after \<^verbatim>\<open>l := NewLog("APP"); l.AddInfo("started")\<close> in an empty
  store, and a message a caller writes through the slice it got from \<^verbatim>\<open>l.Notes()\<close>.
\<close>

definition shared_state :: "store \<times> Log_s" where
  "shared_state =
     AddInfo_s grow_double TrimSpace_ascii (NewLog_s ''linux'' ''APP'' []) [''started'']"

definition forged :: LogInfo where
  "forged = \<lparr>Type = Error, LogInfo.Prefix = ''X'', Message = ''forged''\<rparr>"

section \<open>Properties of the dominant message type\<close>

lemma LogType_distinct:
  "Info \<noteq> Warn" "Info \<noteq> Error" "Info \<noteq> Success" "Info \<noteq> Fatal" "Info \<noteq> App"
  "Warn \<noteq> Error" "Warn \<noteq> Success" "Warn \<noteq> Fatal" "Warn \<noteq> App"
  "Error \<noteq> Success" "Error \<noteq> Fatal" "Error \<noteq> App"
  "Success \<noteq> Fatal" "Success \<noteq> App" "Fatal \<noteq> App"
  by (simp_all add: Info_def Warn_def Error_def Fatal_def Success_def App_def)

lemma tally_all_counts:
  "tally_all msgs c =
     \<lparr>nfo = nfo c + count_of Info msgs, wrn = wrn c + count_of Warn msgs,
      err = err c + count_of Error msgs, suc = suc c + count_of Success msgs\<rparr>"
proof (induction msgs arbitrary: c)
  case Nil
  show ?case by (simp add: count_of_def)
next
  case (Cons msg msgs)
  show ?case
    using LogType_distinct by (simp add: Cons.IH tally_def count_of_def)
qed

lemma getDominantNoteType_counts:
  "getDominantNoteType msgs =
     (if count_of Info msgs > count_of Warn msgs \<and> count_of Info msgs > count_of Error msgs
         \<and> count_of Info msgs > count_of Success msgs then Info
      else if count_of Warn msgs > count_of Info msgs \<and> count_of Warn msgs > count_of Error msgs
         \<and> count_of Warn msgs > count_of Success msgs then Warn
      else if count_of Error msgs > count_of Info msgs \<and> count_of Error msgs > count_of Warn msgs
         \<and> count_of Error msgs > count_of Success msgs then Error
      else if count_of Success msgs > count_of Info msgs \<and> count_of Success msgs > count_of Warn msgs
         \<and> count_of Success msgs > count_of Error msgs then Success
      else App)"
  by (simp add: getDominantNoteType_def tally_all_counts Let_def)

lemma count_of_filter_other:
  "t \<noteq> u \<Longrightarrow> count_of t (filter (\<lambda>m. Type m \<noteq> u) msgs) = count_of t msgs"
  by (induction msgs) (auto simp: count_of_def)

text \<open>
  Claim C1. For every log, \<open>Prevailing\<close> returns Info, Warn, Error or Success exactly when
  the number of stored messages of that type is strictly greater than each of the other
  three numbers taken one by one; in every other case (no type strictly ahead of the three
  others, which covers all-zero tallies and ties) it returns App; and the messages of type
  App are not tallied: removing them from the log leaves every counter of the loop as it was.
\<close>

theorem C1_prevailing_strict_winner:
  "(Prevailing r = Info \<longleftrightarrow>
      count_of Info (ln r) > count_of Warn (ln r) \<and> count_of Info (ln r) > count_of Error (ln r)
      \<and> count_of Info (ln r) > count_of Success (ln r))
   \<and> (Prevailing r = Warn \<longleftrightarrow>
      count_of Warn (ln r) > count_of Info (ln r) \<and> count_of Warn (ln r) > count_of Error (ln r)
      \<and> count_of Warn (ln r) > count_of Success (ln r))
   \<and> (Prevailing r = Error \<longleftrightarrow>
      count_of Error (ln r) > count_of Info (ln r) \<and> count_of Error (ln r) > count_of Warn (ln r)
      \<and> count_of Error (ln r) > count_of Success (ln r))
   \<and> (Prevailing r = Success \<longleftrightarrow>
      count_of Success (ln r) > count_of Info (ln r) \<and> count_of Success (ln r) > count_of Warn (ln r)
      \<and> count_of Success (ln r) > count_of Error (ln r))
   \<and> (Prevailing r = App \<longleftrightarrow>
      \<not> (count_of Info (ln r) > count_of Warn (ln r) \<and> count_of Info (ln r) > count_of Error (ln r)
          \<and> count_of Info (ln r) > count_of Success (ln r))
      \<and> \<not> (count_of Warn (ln r) > count_of Info (ln r) \<and> count_of Warn (ln r) > count_of Error (ln r)
          \<and> count_of Warn (ln r) > count_of Success (ln r))
      \<and> \<not> (count_of Error (ln r) > count_of Info (ln r) \<and> count_of Error (ln r) > count_of Warn (ln r)
          \<and> count_of Error (ln r) > count_of Success (ln r))
      \<and> \<not> (count_of Success (ln r) > count_of Info (ln r) \<and> count_of Success (ln r) > count_of Warn (ln r)
          \<and> count_of Success (ln r) > count_of Error (ln r)))
   \<and> Prevailing r \<in> {Info, Warn, Error, Success, App}
   \<and> tally_all (filter (\<lambda>m. Type m \<noteq> App) (ln r)) c = tally_all (ln r) c"
proof -
  have frame: "tally_all (filter (\<lambda>m. Type m \<noteq> App) (ln r)) c = tally_all (ln r) c"
    using LogType_distinct by (simp add: tally_all_counts count_of_filter_other)
  have dom: "Prevailing r \<in> {Info, Warn, Error, Success, App}"
    by (simp add: Prevailing_def getDominantNoteType_counts)
  show ?thesis
    unfolding Prevailing_def getDominantNoteType_counts
    using LogType_distinct frame dom by (auto simp: Prevailing_def)
qed

section \<open>Closed forms of the loops\<close>

lemma AddInfo_eq:
  "AddInfo T r msg =
     r\<lparr>ln := ln r @ map (\<lambda>m. \<lparr>Type = Info, LogInfo.Prefix = Log.Prefix r, Message = T m\<rparr>) msg\<rparr>"
  by (induction msg arbitrary: r) (simp_all add: addMessage_def)

lemma AddWarning_eq:
  "AddWarning T r msg =
     r\<lparr>ln := ln r @ map (\<lambda>m. \<lparr>Type = Warn, LogInfo.Prefix = Log.Prefix r, Message = T m\<rparr>) msg\<rparr>"
  by (induction msg arbitrary: r) (simp_all add: addMessage_def)

lemma AddError_eq:
  "AddError T r msg =
     r\<lparr>ln := ln r @ map (\<lambda>m. \<lparr>Type = Error, LogInfo.Prefix = Log.Prefix r, Message = T m\<rparr>) msg\<rparr>"
  by (induction msg arbitrary: r) (simp_all add: addMessage_def)

lemma AddSuccess_eq:
  "AddSuccess T r msg =
     r\<lparr>ln := ln r @ map (\<lambda>m. \<lparr>Type = Success, LogInfo.Prefix = Log.Prefix r, Message = T m\<rparr>) msg\<rparr>"
  by (induction msg arbitrary: r) (simp_all add: addMessage_def)

lemma AddAppMsg_eq:
  "AddAppMsg T r msg =
     r\<lparr>ln := ln r @ map (\<lambda>m. \<lparr>Type = App, LogInfo.Prefix = Log.Prefix r, Message = T m\<rparr>) msg\<rparr>"
  by (induction msg arbitrary: r) (simp_all add: addMessage_def)

lemmas Add_eqs = AddInfo_eq AddWarning_eq AddError_eq AddSuccess_eq AddAppMsg_eq

lemma write_lines_eq:
  "write_lines lf vs sb = sb @ concat (map (\<lambda>v. LogInfo_ToString v @ lf) vs)"
  by (induction vs arbitrary: sb) simp_all

lemma Log_ToString_eq:
  "Log_ToString r =
     concat (map (\<lambda>v. LogInfo_ToString v @ (if osIsWin r then [CHR 0x0D, CHR 0x0A] else [CHR 0x0A]))
       (ln r))"
  by (simp add: Log_ToString_def write_lines_eq Let_def)

lemma HasErrors_scan_iff: "HasErrors_scan xs \<longleftrightarrow> (\<exists>x\<in>set xs. Type x = Error)"
  by (induction xs) simp_all

lemma HasWarnings_scan_iff: "HasWarnings_scan xs \<longleftrightarrow> (\<exists>x\<in>set xs. Type x = Warn)"
  by (induction xs) simp_all

lemma HasInfos_scan_iff: "HasInfos_scan xs \<longleftrightarrow> (\<exists>x\<in>set xs. Type x = Info)"
  by (induction xs) simp_all

lemma HasSucceses_scan_iff: "HasSucceses_scan xs \<longleftrightarrow> (\<exists>x\<in>set xs. Type x = Success)"
  by (induction xs) simp_all

lemmas Has_iffs = HasErrors_scan_iff HasWarnings_scan_iff HasInfos_scan_iff HasSucceses_scan_iff

lemmas Has_defs = HasErrors_def HasWarnings_def HasInfos_def HasSucceses_def

lemma getDominantNoteType_Nil: "getDominantNoteType [] = App"
  by (simp add: getDominantNoteType_def)

section \<open>Histories\<close>

lemma osIsWin_do_call: "osIsWin (do_call T r c) = osIsWin r"
  by (cases c) (simp_all add: Add_eqs Append_def Clear_def SetPrefix_def)

lemma osIsWin_do_calls: "osIsWin (do_calls T r cs) = osIsWin r"
  by (induction cs arbitrary: r) (simp_all add: osIsWin_do_call)

lemma do_call_append:
  "is_append c \<Longrightarrow> do_call T r c = r\<lparr>ln := ln r @ appended T (Log.Prefix r) c\<rparr>"
  by (cases c) (simp_all add: Add_eqs Append_def)

lemma do_calls_append:
  "list_all is_append cs \<Longrightarrow>
     do_calls T r cs = r\<lparr>ln := ln r @ concat (map (appended T (Log.Prefix r)) cs)\<rparr>"
  by (induction cs arbitrary: r) (simp_all add: do_call_append)

lemma do_call_keeps:
  "c \<noteq> CallClear \<Longrightarrow> \<exists>ys. ln (do_call T r c) = ln r @ ys"
  by (cases c) (simp_all add: Add_eqs Append_def SetPrefix_def)

lemma do_calls_keeps:
  "CallClear \<notin> set cs \<Longrightarrow> \<exists>ys. ln (do_calls T r cs) = ln r @ ys"
proof (induction cs arbitrary: r)
  case Nil
  show ?case by simp
next
  case (Cons c cs)
  from Cons.prems obtain ys where 1: "ln (do_call T r c) = ln r @ ys"
    using do_call_keeps [of c T r] by auto
  from Cons.prems Cons.IH [of "do_call T r c"] obtain zs
    where 2: "ln (do_calls T (do_call T r c) cs) = ln (do_call T r c) @ zs"
    by auto
  from 1 2 show ?case by simp
qed

section \<open>The sequence model abstracts the store\<close>

text \<open>
  Whether \<open>append_s\<close> writes in place or moves to a new array, the slice it returns is
  well formed and denotes the old elements followed by the new values.
\<close>

lemma append_s_refines:
  assumes "wf_slice h s" and "append_s grow h s xs = (h', s')"
  shows "wf_slice h' s' \<and> elems h' s' = elems h s @ xs"
proof (cases "len s + length xs \<le> cap s")
  case True
  with assms(2) have h': "h' = h[arr s := take (off s + len s) (h ! arr s) @ xs
        @ drop (off s + (len s + length xs)) (h ! arr s)]"
    and s': "s' = s\<lparr>len := len s + length xs\<rparr>"
    by (simp_all add: append_s_def Let_def)
  from assms(1) have a: "arr s < length h" and b: "off s + cap s \<le> length (h ! arr s)"
    by (simp_all add: wf_slice_def)
  let ?A = "h ! arr s"
  from assms(1) True have c: "off s + len s \<le> length ?A"
    by (simp add: wf_slice_def)
  have tk: "take (off s + len s) ?A = take (off s) ?A @ elems h s"
    by (simp add: take_add elems_def)
  have l1: "length (take (off s) ?A) = off s" and l2: "length (elems h s) = len s"
    using c by (simp_all add: elems_def)
  have "elems h' s' =
      take (len s + length xs) (drop (off s)
        (take (off s) ?A @ elems h s @ xs @ drop (off s + (len s + length xs)) ?A))"
    using a by (simp add: h' s' elems_def tk)
  also have "\<dots> = take (len s + length xs)
        (elems h s @ xs @ drop (off s + (len s + length xs)) ?A)"
    using l1 by simp
  also have "\<dots> = elems h s @ xs"
    using l2 by simp
  finally have el: "elems h' s' = elems h s @ xs" .
  show ?thesis using a b True el by (simp add: h' s' wf_slice_def)
next
  case False
  let ?n = "len s + length xs"
  let ?c = "max ?n (grow (cap s) ?n)"
  from False assms(2) have h': "h' = h @ [elems h s @ xs @ replicate (?c - ?n) zero_LogInfo]"
    and s': "s' = \<lparr>arr = length h, off = 0, len = ?n, cap = ?c\<rparr>"
    by (simp_all add: append_s_def Let_def)
  from assms(1) have l2: "length (elems h s) = len s"
    by (auto simp: wf_slice_def elems_def)
  have wf: "wf_slice h' s'"
    using l2 by (simp add: h' s' wf_slice_def)
  have "elems h' s' = take ?n (elems h s @ xs @ replicate (?c - ?n) zero_LogInfo)"
    by (simp add: h' s' elems_def)
  also have "\<dots> = elems h s @ xs"
    using l2 by simp
  finally show ?thesis
    using wf by simp
qed

lemma NewLog_s_refines:
  "wf_slice (fst (NewLog_s GOOS p h)) (s_ln (snd (NewLog_s GOOS p h)))
   \<and> stored (fst (NewLog_s GOOS p h)) (snd (NewLog_s GOOS p h)) = NewLog GOOS p"
  by (simp add: NewLog_s_def wf_slice_def stored_def elems_def NewLog_def)

lemma Clear_s_refines:
  "wf_slice (fst (Clear_s (h, r))) (s_ln (snd (Clear_s (h, r))))
   \<and> stored (fst (Clear_s (h, r))) (snd (Clear_s (h, r))) = Clear (stored h r)"
  by (simp add: Clear_s_def wf_slice_def stored_def elems_def Clear_def)

lemma Append_s_refines:
  assumes "wf_slice h (s_ln r)"
  shows "wf_slice (fst (Append_s grow (h, r) xs)) (s_ln (snd (Append_s grow (h, r) xs)))
   \<and> stored (fst (Append_s grow (h, r) xs)) (snd (Append_s grow (h, r) xs))
       = Append (stored h r) xs"
proof -
  obtain h' s' where eq: "append_s grow h (s_ln r) xs = (h', s')"
    by (cases "append_s grow h (s_ln r) xs")
  from append_s_refines [OF assms eq] show ?thesis
    by (simp add: Append_s_def eq stored_def Append_def)
qed

lemma AddInfo_s_refines:
  "wf_slice h (s_ln r) \<Longrightarrow>
     wf_slice (fst (AddInfo_s grow T (h, r) ms)) (s_ln (snd (AddInfo_s grow T (h, r) ms)))
     \<and> stored (fst (AddInfo_s grow T (h, r) ms)) (snd (AddInfo_s grow T (h, r) ms))
         = AddInfo T (stored h r) ms"
proof (induction ms arbitrary: h r)
  case Nil
  then show ?case by simp
next
  case (Cons m ms)
  let ?x = "\<lparr>Type = Info, LogInfo.Prefix = s_Prefix r, Message = T m\<rparr>"
  obtain h' s' where eq: "append_s grow h (s_ln r) [?x] = (h', s')"
    by (cases "append_s grow h (s_ln r) [?x]")
  from append_s_refines [OF Cons.prems eq]
  have wf: "wf_slice h' s'" and el: "elems h' s' = elems h (s_ln r) @ [?x]"
    by simp_all
  have step: "stored h' (r\<lparr>s_ln := s'\<rparr>) =
      (stored h r)\<lparr>ln := addMessage T (ln (stored h r)) (Log.Prefix (stored h r)) m Info\<rparr>"
    by (simp add: stored_def el addMessage_def)
  from wf have "wf_slice h' (s_ln (r\<lparr>s_ln := s'\<rparr>))"
    by simp
  from Cons.IH [OF this] show ?case
    by (simp add: addMessage_s_def eq step)
qed

lemma elems_assign:
  assumes "wf_slice h s" and "i < len s"
  shows "elems (h[arr s := (h ! arr s)[off s + i := v]]) s = (elems h s)[i := v]"
  using assms by (simp add: wf_slice_def elems_def drop_update_swap take_update_swap)

section \<open>The concrete inputs, evaluated\<close>

lemma TrimSpace_ascii_examples:
  "TrimSpace_ascii ''  '' = ''''"
  "TrimSpace_ascii ''  hello  '' = ''hello''"
  "TrimSpace_ascii ''low disk'' = ''low disk''"
  "TrimSpace_ascii ''a'' = ''a''" "TrimSpace_ascii ''b'' = ''b''" "TrimSpace_ascii ''c'' = ''c''"
  by (simp_all add: TrimSpace_ascii_def asciiSpace_def)

lemma example_log_value:
  "example_log = \<lparr>Log.Prefix = ''APP'',
     ln = [\<lparr>Type = Info, LogInfo.Prefix = ''APP'', Message = ''started''\<rparr>,
           \<lparr>Type = Error, LogInfo.Prefix = ''APP'', Message = ''disk full''\<rparr>,
           \<lparr>Type = Success, LogInfo.Prefix = ''APP'', Message = ''recovered''\<rparr>],
     osIsWin = False\<rparr>"
  by (simp add: example_log_def NewLog_def addMessage_def TrimSpace_ascii_def asciiSpace_def)

lemma example_log_prevailing: "Prevailing example_log = App"
  using LogType_distinct
  by (simp add: Prevailing_def getDominantNoteType_def example_log_value tally_def)

lemma example_render:
  "LogInfo_ToString (hd (ln (AddInfo TrimSpace_ascii (NewLog ''linux'' ''X'') [''  hello  ''])))
     = ''INF[X]: hello''"
  by (simp add: NewLog_def addMessage_def TrimSpace_ascii_examples LogInfo_ToString_def
      DelimMsgType_def Info_def App_def)

lemma shared_state_value:
  "shared_state =
     ([[], [\<lparr>Type = Info, LogInfo.Prefix = ''APP'', Message = ''started''\<rparr>]],
      \<lparr>s_Prefix = ''APP'', s_ln = \<lparr>arr = 1, off = 0, len = 1, cap = 1\<rparr>, s_osIsWin = False\<rparr>)"
  by (simp add: shared_state_def NewLog_s_def addMessage_s_def append_s_def elems_def
      grow_double_def TrimSpace_ascii_def asciiSpace_def)

section \<open>Rendering of a log and of a message\<close>

text \<open>
  Claim C2. For every log, \<open>ToString\<close> is the concatenation, in the order of storage, of the
  rendered line of each stored message followed by the line feed; the line feed is carriage
  return and line feed when \<open>osIsWin\<close> holds and a single line feed otherwise; \<open>osIsWin\<close> is
  set by \<open>NewLog\<close> to whether the platform is \<open>windows\<close> and no later call changes it, so
  after any history the line feed is the one fixed at construction. The result is the empty
  string for an empty log and ends with the line feed for a log that is not empty.
\<close>

theorem C2_ToString_lines:
  "Log_ToString r =
     concat (map (\<lambda>v. LogInfo_ToString v @ (if osIsWin r then [CHR 0x0D, CHR 0x0A] else [CHR 0x0A]))
       (ln r))
   \<and> osIsWin (NewLog GOOS p) = (GOOS = ''windows'')
   \<and> osIsWin (do_calls T (NewLog GOOS p) cs) = (GOOS = ''windows'')
   \<and> Log_ToString (do_calls T (NewLog GOOS p) cs) =
       concat (map (\<lambda>v. LogInfo_ToString v
                      @ (if GOOS = ''windows'' then [CHR 0x0D, CHR 0x0A] else [CHR 0x0A]))
         (Notes (do_calls T (NewLog GOOS p) cs)))
   \<and> (ln r = [] \<longrightarrow> Log_ToString r = '''')
   \<and> (ln r \<noteq> [] \<longrightarrow>
        (\<exists>s. Log_ToString r = s @ (if osIsWin r then [CHR 0x0D, CHR 0x0A] else [CHR 0x0A])))"
proof -
  have win: "osIsWin (do_calls T (NewLog GOOS p) cs) = (GOOS = ''windows'')"
    by (simp add: osIsWin_do_calls NewLog_def)
  have last: "\<exists>s. Log_ToString r = s @ (if osIsWin r then [CHR 0x0D, CHR 0x0A] else [CHR 0x0A])"
    if "ln r \<noteq> []"
  proof -
    from that obtain vs v where "ln r = vs @ [v]"
      by (metis rev_exhaust)
    then show ?thesis
      by (simp add: Log_ToString_eq)
  qed
  show ?thesis
    using win last by (simp add: Log_ToString_eq Notes_def NewLog_def)
qed

theorem C2_ToString_lines_witness:
  "ln example_log \<noteq> []
   \<and> Log_ToString example_log =
       ''INF[APP]: started'' @ [CHR 0x0A] @ ''ERR[APP]: disk full'' @ [CHR 0x0A]
         @ ''SUC[APP]: recovered'' @ [CHR 0x0A]
   \<and> (\<exists>s. Log_ToString example_log = s @ [CHR 0x0A])
   \<and> ln (Clear example_log) = [] \<and> Log_ToString (Clear example_log) = ''''"
proof -
  have ne: "ln example_log \<noteq> []" and nw: "\<not> osIsWin example_log"
    by (simp_all add: example_log_value)
  have em: "ln (Clear example_log) = []"
    by (simp add: Clear_def)
  have val: "Log_ToString example_log =
       ''INF[APP]: started'' @ [CHR 0x0A] @ ''ERR[APP]: disk full'' @ [CHR 0x0A]
         @ ''SUC[APP]: recovered'' @ [CHR 0x0A]"
    using C2_ToString_lines [where r = example_log]
    by (simp add: example_log_value LogInfo_ToString_def DelimMsgType_def
        Info_def Error_def Success_def App_def)
  show ?thesis
    using ne nw em val C2_ToString_lines [where r = example_log]
      C2_ToString_lines [where r = "Clear example_log"]
    by simp
qed

text \<open>
  Claim C3. The rendered line of a message is its text alone when its type is App, whatever
  its prefix; otherwise it is the type's code, then the prefix between square brackets if the
  prefix is not empty, then the two characters colon and space, then the text. The codes are
  INF, WRN, ERR, FTL and SUC, and App is the empty string.
\<close>

theorem C3_LogInfo_ToString:
  "LogInfo_ToString lni =
     (if Type lni = App then Message lni
      else Type lni
           @ (if LogInfo.Prefix lni \<noteq> '''' then ''['' @ LogInfo.Prefix lni @ '']'' else '''')
           @ '': '' @ Message lni)
   \<and> Info = ''INF'' \<and> Warn = ''WRN'' \<and> Error = ''ERR'' \<and> Fatal = ''FTL'' \<and> Success = ''SUC''
   \<and> App = '''' \<and> DelimMsgType = '': ''
   \<and> LogInfo_ToString \<lparr>Type = App, LogInfo.Prefix = p, Message = m\<rparr> = m
   \<and> LogInfo_ToString \<lparr>Type = Info, LogInfo.Prefix = '''', Message = m\<rparr> = ''INF: '' @ m
   \<and> LogInfo_ToString \<lparr>Type = Info, LogInfo.Prefix = q # qs, Message = m\<rparr>
        = ''INF['' @ (q # qs) @ '']: '' @ m
   \<and> LogInfo_ToString \<lparr>Type = Warn, LogInfo.Prefix = '''', Message = m\<rparr> = ''WRN: '' @ m
   \<and> LogInfo_ToString \<lparr>Type = Warn, LogInfo.Prefix = q # qs, Message = m\<rparr>
        = ''WRN['' @ (q # qs) @ '']: '' @ m
   \<and> LogInfo_ToString \<lparr>Type = Error, LogInfo.Prefix = '''', Message = m\<rparr> = ''ERR: '' @ m
   \<and> LogInfo_ToString \<lparr>Type = Error, LogInfo.Prefix = q # qs, Message = m\<rparr>
        = ''ERR['' @ (q # qs) @ '']: '' @ m
   \<and> LogInfo_ToString \<lparr>Type = Fatal, LogInfo.Prefix = '''', Message = m\<rparr> = ''FTL: '' @ m
   \<and> LogInfo_ToString \<lparr>Type = Fatal, LogInfo.Prefix = q # qs, Message = m\<rparr>
        = ''FTL['' @ (q # qs) @ '']: '' @ m
   \<and> LogInfo_ToString \<lparr>Type = Success, LogInfo.Prefix = '''', Message = m\<rparr> = ''SUC: '' @ m
   \<and> LogInfo_ToString \<lparr>Type = Success, LogInfo.Prefix = q # qs, Message = m\<rparr>
        = ''SUC['' @ (q # qs) @ '']: '' @ m"
  by (simp add: LogInfo_ToString_def DelimMsgType_def Let_def
      Info_def Warn_def Error_def Fatal_def Success_def App_def)

section \<open>The four predicates\<close>

text \<open>
  Claim C4. \<open>HasErrors\<close> holds exactly when some stored message has type Error, and likewise
  \<open>HasWarnings\<close> for Warn, \<open>HasInfos\<close> for Info and \<open>HasSucceses\<close> for Success. Each is a
  function from the log to a boolean: it has a value receiver, assigns nothing and returns
  no log, so the log is as before.
\<close>

theorem C4_has_predicates:
  "(HasErrors r \<longleftrightarrow> (\<exists>m\<in>set (ln r). Type m = Error))
   \<and> (HasWarnings r \<longleftrightarrow> (\<exists>m\<in>set (ln r). Type m = Warn))
   \<and> (HasInfos r \<longleftrightarrow> (\<exists>m\<in>set (ln r). Type m = Info))
   \<and> (HasSucceses r \<longleftrightarrow> (\<exists>m\<in>set (ln r). Type m = Success))"
  by (simp add: Has_defs Has_iffs)

section \<open>Adding messages\<close>

text \<open>
  Claim C5. Each of \<open>AddInfo\<close>, \<open>AddWarning\<close>, \<open>AddError\<close>, \<open>AddSuccess\<close> and \<open>AddAppMsg\<close>,
  called with the strings \<open>ss\<close>, changes nothing but the stored sequence, to which it appends,
  in the order of \<open>ss\<close>, one message for each string: its text is the trimmed string, its
  prefix the log's field \<open>Prefix\<close>, its type the method's. So the length grows by the number
  of strings, the messages stored before are unchanged, and a string that trims to the empty
  string is appended as a message with empty text.
\<close>

theorem C5_categorized_add:
  "AddInfo T r ss =
     r\<lparr>ln := ln r @ map (\<lambda>s. \<lparr>Type = Info, LogInfo.Prefix = Log.Prefix r, Message = T s\<rparr>) ss\<rparr>
   \<and> AddWarning T r ss =
     r\<lparr>ln := ln r @ map (\<lambda>s. \<lparr>Type = Warn, LogInfo.Prefix = Log.Prefix r, Message = T s\<rparr>) ss\<rparr>
   \<and> AddError T r ss =
     r\<lparr>ln := ln r @ map (\<lambda>s. \<lparr>Type = Error, LogInfo.Prefix = Log.Prefix r, Message = T s\<rparr>) ss\<rparr>
   \<and> AddSuccess T r ss =
     r\<lparr>ln := ln r @ map (\<lambda>s. \<lparr>Type = Success, LogInfo.Prefix = Log.Prefix r, Message = T s\<rparr>) ss\<rparr>
   \<and> AddAppMsg T r ss =
     r\<lparr>ln := ln r @ map (\<lambda>s. \<lparr>Type = App, LogInfo.Prefix = Log.Prefix r, Message = T s\<rparr>) ss\<rparr>
   \<and> length (ln (AddInfo T r ss)) = length (ln r) + length ss
   \<and> length (ln (AddWarning T r ss)) = length (ln r) + length ss
   \<and> length (ln (AddError T r ss)) = length (ln r) + length ss
   \<and> length (ln (AddSuccess T r ss)) = length (ln r) + length ss
   \<and> length (ln (AddAppMsg T r ss)) = length (ln r) + length ss
   \<and> take (length (ln r)) (ln (AddInfo T r ss)) = ln r
   \<and> take (length (ln r)) (ln (AddWarning T r ss)) = ln r
   \<and> take (length (ln r)) (ln (AddError T r ss)) = ln r
   \<and> take (length (ln r)) (ln (AddSuccess T r ss)) = ln r
   \<and> take (length (ln r)) (ln (AddAppMsg T r ss)) = ln r
   \<and> (T s = '''' \<longrightarrow>
        ln (AddInfo T r [s]) = ln r @ [\<lparr>Type = Info, LogInfo.Prefix = Log.Prefix r, Message = ''''\<rparr>]
      \<and> ln (AddWarning T r [s]) = ln r @ [\<lparr>Type = Warn, LogInfo.Prefix = Log.Prefix r, Message = ''''\<rparr>]
      \<and> ln (AddError T r [s]) = ln r @ [\<lparr>Type = Error, LogInfo.Prefix = Log.Prefix r, Message = ''''\<rparr>]
      \<and> ln (AddSuccess T r [s]) = ln r @ [\<lparr>Type = Success, LogInfo.Prefix = Log.Prefix r, Message = ''''\<rparr>]
      \<and> ln (AddAppMsg T r [s]) = ln r @ [\<lparr>Type = App, LogInfo.Prefix = Log.Prefix r, Message = ''''\<rparr>])"
  by (simp add: Add_eqs)

theorem C5_categorized_add_witness:
  "TrimSpace_ascii ''  '' = ''''
   \<and> ln (AddInfo TrimSpace_ascii example_log [''  '']) =
       ln example_log @ [\<lparr>Type = Info, LogInfo.Prefix = ''APP'', Message = ''''\<rparr>]
   \<and> ln (AddAppMsg TrimSpace_ascii example_log [''  '']) =
       ln example_log @ [\<lparr>Type = App, LogInfo.Prefix = ''APP'', Message = ''''\<rparr>]"
proof -
  have t: "TrimSpace_ascii ''  '' = ''''"
    by (simp add: TrimSpace_ascii_examples)
  have p: "Log.Prefix example_log = ''APP''"
    by (simp add: example_log_value)
  note inst = C5_categorized_add [where T = TrimSpace_ascii and s = "''  ''" and r = example_log]
  from inst t p show ?thesis
    by simp
qed

text \<open>
  Claim C6. \<open>Append\<close> changes nothing but the stored sequence, to which it appends the given
  values as they are and in their order: no field of a value is replaced by the log's prefix
  and no text is trimmed. Appending the notes of one log to another gives the notes of the
  one followed by the notes of the other. On the level of the store the same holds whether
  the built-in \<open>append\<close> writes in place or moves the slice to a new array.
\<close>

theorem C6_append_raw:
  "Append r xs = r\<lparr>ln := ln r @ xs\<rparr>
   \<and> Notes (Append r xs) = Notes r @ xs
   \<and> take (length (Notes r)) (Notes (Append r xs)) = Notes r
   \<and> drop (length (Notes r)) (Notes (Append r xs)) = xs
   \<and> Log.Prefix (Append r xs) = Log.Prefix r
   \<and> osIsWin (Append r xs) = osIsWin r
   \<and> Notes (Append a (Notes b)) = Notes a @ Notes b
   \<and> (wf_slice h (s_ln rs) \<longrightarrow>
        wf_slice (fst (Append_s grow (h, rs) xs)) (s_ln (snd (Append_s grow (h, rs) xs)))
      \<and> Notes (stored (fst (Append_s grow (h, rs) xs)) (snd (Append_s grow (h, rs) xs)))
          = Notes (stored h rs) @ xs)"
  using Append_s_refines [of h rs grow xs] by (simp add: Append_def Notes_def)

theorem C6_append_raw_witness:
  "wf_slice (fst shared_state) (s_ln (snd shared_state))
   \<and> Notes (stored (fst (Append_s grow_double shared_state [fatal_note, forged]))
              (snd (Append_s grow_double shared_state [fatal_note, forged])))
       = [\<lparr>Type = Info, LogInfo.Prefix = ''APP'', Message = ''started''\<rparr>, fatal_note, forged]"
proof -
  have 1: "wf_slice (fst shared_state) (s_ln (snd shared_state))"
    by (simp add: shared_state_value wf_slice_def)
  have 2: "Notes (stored (fst shared_state) (snd shared_state)) =
     [\<lparr>Type = Info, LogInfo.Prefix = ''APP'', Message = ''started''\<rparr>]"
    by (simp add: shared_state_value Notes_def stored_def elems_def)
  note inst = C6_append_raw [where h = "fst shared_state" and rs = "snd shared_state"
      and grow = grow_double and xs = "[fatal_note, forged]"]
  from inst 1 2 show ?thesis
    by simp
qed

section \<open>The notes and who can write them\<close>

text \<open>
  Claim C7, as amended. \<open>Notes\<close> returns the stored messages in the order of storage: after
  a history of adding and appending calls they are the messages stored before, followed by
  the messages of each call in turn. What it returns is the log's own slice, not a copy:
  the elements it denotes are the stored messages, and an assignment to its element \<open>i\<close>
  (below its length) by the caller replaces the stored message \<open>i\<close> of the log and leaves
  the other stored messages as they are.
\<close>

theorem C7_notes_internal_storage:
  "Notes r = ln r
   \<and> (list_all is_append cs \<longrightarrow>
        Notes (do_calls T r cs) = Notes r @ concat (map (appended T (Log.Prefix r)) cs))
   \<and> Notes (stored h rs) = elems h (Notes_s rs)
   \<and> (wf_slice h (Notes_s rs) \<and> i < len (Notes_s rs) \<longrightarrow>
        (\<exists>h'. slice_assign h (Notes_s rs) i v = Some h'
            \<and> Notes (stored h' rs) = (Notes (stored h rs))[i := v]))"
  by (simp add: Notes_def do_calls_append stored_def Notes_s_def slice_assign_def elems_assign)

theorem C7_notes_internal_storage_witness:
  "list_all is_append [CallAddInfo [''a'', ''b''], CallAppend [forged], CallAddError [''c'']]
   \<and> Notes (do_calls TrimSpace_ascii (NewLog ''linux'' ''P'')
        [CallAddInfo [''a'', ''b''], CallAppend [forged], CallAddError [''c'']]) =
      [\<lparr>Type = Info, LogInfo.Prefix = ''P'', Message = ''a''\<rparr>,
       \<lparr>Type = Info, LogInfo.Prefix = ''P'', Message = ''b''\<rparr>,
       forged,
       \<lparr>Type = Error, LogInfo.Prefix = ''P'', Message = ''c''\<rparr>]
   \<and> wf_slice (fst shared_state) (Notes_s (snd shared_state))
   \<and> 0 < len (Notes_s (snd shared_state))
   \<and> (\<exists>h'. slice_assign (fst shared_state) (Notes_s (snd shared_state)) 0 forged = Some h'
          \<and> Notes (stored h' (snd shared_state)) = [forged])"
proof -
  let ?cs = "[CallAddInfo [''a'', ''b''], CallAppend [forged], CallAddError [''c'']]"
  have 1: "list_all is_append ?cs"
    by simp
  have 2: "wf_slice (fst shared_state) (Notes_s (snd shared_state))
      \<and> 0 < len (Notes_s (snd shared_state))"
    by (simp add: shared_state_value wf_slice_def Notes_s_def)
  have 3: "Notes (stored (fst shared_state) (snd shared_state)) =
     [\<lparr>Type = Info, LogInfo.Prefix = ''APP'', Message = ''started''\<rparr>]"
    by (simp add: shared_state_value Notes_def stored_def elems_def)
  have 4: "Notes (NewLog ''linux'' ''P'') = [] \<and> Log.Prefix (NewLog ''linux'' ''P'') = ''P''"
    by (simp add: Notes_def NewLog_def)
  note inst = C7_notes_internal_storage [where cs = ?cs and T = TrimSpace_ascii
        and r = "NewLog ''linux'' ''P''" and h = "fst shared_state" and rs = "snd shared_state"
        and i = 0 and v = forged]
  from inst 1 have "Notes (do_calls TrimSpace_ascii (NewLog ''linux'' ''P'') ?cs) =
      Notes (NewLog ''linux'' ''P'')
        @ concat (map (appended TrimSpace_ascii (Log.Prefix (NewLog ''linux'' ''P''))) ?cs)"
    by blast
  with 4 have 6: "Notes (do_calls TrimSpace_ascii (NewLog ''linux'' ''P'') ?cs) =
      [\<lparr>Type = Info, LogInfo.Prefix = ''P'', Message = ''a''\<rparr>,
       \<lparr>Type = Info, LogInfo.Prefix = ''P'', Message = ''b''\<rparr>,
       forged,
       \<lparr>Type = Error, LogInfo.Prefix = ''P'', Message = ''c''\<rparr>]"
    by (simp add: TrimSpace_ascii_examples)
  from inst 2 obtain h' where
    "slice_assign (fst shared_state) (Notes_s (snd shared_state)) 0 forged = Some h'"
    "Notes (stored h' (snd shared_state)) =
       (Notes (stored (fst shared_state) (snd shared_state)))[0 := forged]"
    by blast
  with 3 have 7: "\<exists>h'. slice_assign (fst shared_state) (Notes_s (snd shared_state)) 0 forged = Some h'
          \<and> Notes (stored h' (snd shared_state)) = [forged]"
    by simp
  from 1 2 6 7 show ?thesis
    by blast
qed

text \<open>
  The claim as the specification states it (the returned value is a read-only view through
  which the log cannot be changed) fails: after \<^verbatim>\<open>l := NewLog("APP"); l.AddInfo("started")\<close>
  the caller's \<^verbatim>\<open>l.Notes()[0] = forged\<close> succeeds, and the log then holds \<open>forged\<close> in the
  place of its message.
\<close>

theorem C7_notes_read_only_counterexample:
  "Notes (stored (fst shared_state) (snd shared_state)) =
     [\<lparr>Type = Info, LogInfo.Prefix = ''APP'', Message = ''started''\<rparr>]
   \<and> slice_assign (fst shared_state) (Notes_s (snd shared_state)) 0 forged = Some [[], [forged]]
   \<and> Notes (stored [[], [forged]] (snd shared_state)) = [forged]
   \<and> Notes (stored [[], [forged]] (snd shared_state))
       \<noteq> Notes (stored (fst shared_state) (snd shared_state))"
  by (simp add: shared_state_value Notes_def stored_def elems_def slice_assign_def Notes_s_def
      forged_def Info_def Error_def)

section \<open>Clearing\<close>

text \<open>
  Claim C8. \<open>Clear\<close> leaves the stored sequence empty and the fields \<open>Prefix\<close> and \<open>osIsWin\<close>
  as they were. Right after it the four predicates are false, \<open>Prevailing\<close> is App and
  \<open>ToString\<close> is the empty string; a cleared log that came from \<open>NewLog\<close> by any history is
  the log \<open>NewLog\<close> gives for the current prefix, and the adding methods then store exactly
  their own messages, stamped with that prefix.
\<close>

theorem C8_clear:
  "Clear r = \<lparr>Log.Prefix = Log.Prefix r, ln = [], osIsWin = osIsWin r\<rparr>
   \<and> Notes (Clear r) = []
   \<and> Log.Prefix (Clear r) = Log.Prefix r
   \<and> osIsWin (Clear r) = osIsWin r
   \<and> \<not> HasErrors (Clear r) \<and> \<not> HasWarnings (Clear r) \<and> \<not> HasInfos (Clear r)
   \<and> \<not> HasSucceses (Clear r)
   \<and> Prevailing (Clear r) = App
   \<and> Log_ToString (Clear r) = ''''
   \<and> Clear (do_calls T (NewLog GOOS p) cs) = NewLog GOOS (Log.Prefix (do_calls T (NewLog GOOS p) cs))
   \<and> ln (AddInfo T (Clear r) ss) =
       map (\<lambda>s. \<lparr>Type = Info, LogInfo.Prefix = Log.Prefix r, Message = T s\<rparr>) ss
   \<and> ln (AddWarning T (Clear r) ss) =
       map (\<lambda>s. \<lparr>Type = Warn, LogInfo.Prefix = Log.Prefix r, Message = T s\<rparr>) ss
   \<and> ln (AddError T (Clear r) ss) =
       map (\<lambda>s. \<lparr>Type = Error, LogInfo.Prefix = Log.Prefix r, Message = T s\<rparr>) ss
   \<and> ln (AddSuccess T (Clear r) ss) =
       map (\<lambda>s. \<lparr>Type = Success, LogInfo.Prefix = Log.Prefix r, Message = T s\<rparr>) ss
   \<and> ln (AddAppMsg T (Clear r) ss) =
       map (\<lambda>s. \<lparr>Type = App, LogInfo.Prefix = Log.Prefix r, Message = T s\<rparr>) ss"
proof -
  have fresh: "Clear (do_calls T (NewLog GOOS p) cs) =
      NewLog GOOS (Log.Prefix (do_calls T (NewLog GOOS p) cs))"
    using osIsWin_do_calls [of T "NewLog GOOS p" cs]
    by (simp add: Clear_def NewLog_def)
  have rec: "Clear r = \<lparr>Log.Prefix = Log.Prefix r, ln = [], osIsWin = osIsWin r\<rparr>"
    by (simp add: Clear_def)
  have q: "\<not> HasErrors (Clear r) \<and> \<not> HasWarnings (Clear r) \<and> \<not> HasInfos (Clear r)
      \<and> \<not> HasSucceses (Clear r) \<and> Prevailing (Clear r) = App \<and> Log_ToString (Clear r) = ''''"
    by (simp add: Clear_def Has_defs Prevailing_def getDominantNoteType_Nil Log_ToString_def)
  have adds: "ln (AddInfo T (Clear r) ss) =
       map (\<lambda>s. \<lparr>Type = Info, LogInfo.Prefix = Log.Prefix r, Message = T s\<rparr>) ss
   \<and> ln (AddWarning T (Clear r) ss) =
       map (\<lambda>s. \<lparr>Type = Warn, LogInfo.Prefix = Log.Prefix r, Message = T s\<rparr>) ss
   \<and> ln (AddError T (Clear r) ss) =
       map (\<lambda>s. \<lparr>Type = Error, LogInfo.Prefix = Log.Prefix r, Message = T s\<rparr>) ss
   \<and> ln (AddSuccess T (Clear r) ss) =
       map (\<lambda>s. \<lparr>Type = Success, LogInfo.Prefix = Log.Prefix r, Message = T s\<rparr>) ss
   \<and> ln (AddAppMsg T (Clear r) ss) =
       map (\<lambda>s. \<lparr>Type = App, LogInfo.Prefix = Log.Prefix r, Message = T s\<rparr>) ss"
    by (simp add: Add_eqs Clear_def)
  show ?thesis
    using fresh rec q adds by (simp add: Notes_def)
qed

section \<open>The type Fatal\<close>

lemma count_of_append: "count_of t (xs @ ys) = count_of t xs + count_of t ys"
  by (simp add: count_of_def)

lemma count_of_all_Fatal:
  "\<forall>m\<in>set fs. Type m = Fatal \<Longrightarrow> t \<noteq> Fatal \<Longrightarrow> count_of t fs = 0"
  by (induction fs) (auto simp: count_of_def)

lemma getDominantNoteType_append_Fatal:
  assumes "\<forall>m\<in>set fs. Type m = Fatal"
  shows "getDominantNoteType (xs @ fs) = getDominantNoteType xs"
  using assms LogType_distinct
  by (simp add: getDominantNoteType_counts count_of_append count_of_all_Fatal)

text \<open>
  Claim C9. A message of type Fatal changes none of the four counters, \<open>Prevailing\<close> never
  returns Fatal, and the Fatal messages of a log, wherever they stand, do not change what
  \<open>Prevailing\<close> returns. Appending Fatal messages changes neither \<open>Prevailing\<close> nor any of the
  four predicates; a log that holds Fatal messages only has \<open>Prevailing\<close> App and the four
  predicates false.
\<close>

theorem C9_fatal_weightless:
  "tally (m\<lparr>Type := Fatal\<rparr>) c = c
   \<and> Prevailing r \<noteq> Fatal
   \<and> getDominantNoteType (filter (\<lambda>m. Type m \<noteq> Fatal) (ln r)) = Prevailing r
   \<and> ((\<forall>m\<in>set fs. Type m = Fatal) \<longrightarrow>
        Prevailing (Append r fs) = Prevailing r
      \<and> HasErrors (Append r fs) = HasErrors r
      \<and> HasWarnings (Append r fs) = HasWarnings r
      \<and> HasInfos (Append r fs) = HasInfos r
      \<and> HasSucceses (Append r fs) = HasSucceses r)
   \<and> ((\<forall>m\<in>set (ln r). Type m = Fatal) \<longrightarrow>
        Prevailing r = App \<and> \<not> HasErrors r \<and> \<not> HasWarnings r \<and> \<not> HasInfos r
      \<and> \<not> HasSucceses r)"
proof -
  have never: "Prevailing r \<noteq> Fatal"
    using LogType_distinct by (simp add: Prevailing_def getDominantNoteType_counts)
  have filt: "getDominantNoteType (filter (\<lambda>m. Type m \<noteq> Fatal) (ln r)) = Prevailing r"
    using LogType_distinct
    by (simp add: Prevailing_def getDominantNoteType_counts count_of_filter_other)
  have app: "Prevailing (Append r fs) = Prevailing r
      \<and> HasErrors (Append r fs) = HasErrors r
      \<and> HasWarnings (Append r fs) = HasWarnings r
      \<and> HasInfos (Append r fs) = HasInfos r
      \<and> HasSucceses (Append r fs) = HasSucceses r"
    if "\<forall>m\<in>set fs. Type m = Fatal"
    using that LogType_distinct
    by (auto simp: Prevailing_def Append_def getDominantNoteType_append_Fatal Has_defs Has_iffs)
  have only: "Prevailing r = App \<and> \<not> HasErrors r \<and> \<not> HasWarnings r \<and> \<not> HasInfos r
      \<and> \<not> HasSucceses r"
    if "\<forall>m\<in>set (ln r). Type m = Fatal"
    using that LogType_distinct getDominantNoteType_append_Fatal [of "ln r" "[]"]
    by (auto simp: Prevailing_def getDominantNoteType_Nil Has_defs Has_iffs)
  show ?thesis
    using never filt app only LogType_distinct by (simp add: tally_def)
qed

theorem C9_fatal_weightless_witness:
  "Type fatal_note = Fatal
   \<and> Prevailing (Append (AddInfo TrimSpace_ascii example_log [''again'']) [fatal_note, fatal_note]) = Info
   \<and> Prevailing (AddInfo TrimSpace_ascii example_log [''again'']) = Info
   \<and> Prevailing (Append (NewLog ''linux'' ''APP'') [fatal_note, fatal_note]) = App
   \<and> \<not> HasErrors (Append (NewLog ''linux'' ''APP'') [fatal_note, fatal_note])
   \<and> \<not> HasWarnings (Append (NewLog ''linux'' ''APP'') [fatal_note, fatal_note])
   \<and> \<not> HasInfos (Append (NewLog ''linux'' ''APP'') [fatal_note, fatal_note])
   \<and> \<not> HasSucceses (Append (NewLog ''linux'' ''APP'') [fatal_note, fatal_note])"
proof -
  let ?r = "AddInfo TrimSpace_ascii example_log [''again'']"
  let ?f = "Append (NewLog ''linux'' ''APP'') [fatal_note, fatal_note]"
  have all: "\<forall>m\<in>set [fatal_note, fatal_note]. Type m = Fatal"
    by (simp add: fatal_note_def)
  have only: "\<forall>m\<in>set (ln ?f). Type m = Fatal"
    by (simp add: Append_def NewLog_def fatal_note_def)
  have info: "Prevailing ?r = Info"
    using LogType_distinct
    by (simp add: Prevailing_def getDominantNoteType_def example_log_value addMessage_def tally_def)
  show ?thesis
    using all only info C9_fatal_weightless [where r = ?r and fs = "[fatal_note, fatal_note]"]
      C9_fatal_weightless [where r = ?f and fs = "[]"]
    by simp
qed

section \<open>The prefix is read at the call\<close>

text \<open>
  Claim C10. An adding method stamps its messages with the value the field \<open>Prefix\<close> holds
  when it is called: after the field is assigned \<open>p\<close>, the messages added next carry \<open>p\<close>,
  while the assignment itself leaves the stored messages alone, and so does every later
  call other than \<open>Clear\<close>: the messages stored before stay as they were, each with the
  prefix it was created with.
\<close>

theorem C10_prefix_read_at_call:
  "ln (AddInfo T (SetPrefix r p) ss) =
     ln r @ map (\<lambda>s. \<lparr>Type = Info, LogInfo.Prefix = p, Message = T s\<rparr>) ss
   \<and> ln (AddWarning T (SetPrefix r p) ss) =
     ln r @ map (\<lambda>s. \<lparr>Type = Warn, LogInfo.Prefix = p, Message = T s\<rparr>) ss
   \<and> ln (AddError T (SetPrefix r p) ss) =
     ln r @ map (\<lambda>s. \<lparr>Type = Error, LogInfo.Prefix = p, Message = T s\<rparr>) ss
   \<and> ln (AddSuccess T (SetPrefix r p) ss) =
     ln r @ map (\<lambda>s. \<lparr>Type = Success, LogInfo.Prefix = p, Message = T s\<rparr>) ss
   \<and> ln (AddAppMsg T (SetPrefix r p) ss) =
     ln r @ map (\<lambda>s. \<lparr>Type = App, LogInfo.Prefix = p, Message = T s\<rparr>) ss
   \<and> ln (SetPrefix r p) = ln r
   \<and> Log.Prefix (SetPrefix r p) = p
   \<and> ln (AddInfo T (SetPrefix (AddInfo T (NewLog GOOS p0) ss0) p) ss) =
       map (\<lambda>s. \<lparr>Type = Info, LogInfo.Prefix = p0, Message = T s\<rparr>) ss0
       @ map (\<lambda>s. \<lparr>Type = Info, LogInfo.Prefix = p, Message = T s\<rparr>) ss
   \<and> (CallClear \<notin> set cs \<longrightarrow> take (length (ln r)) (ln (do_calls T r cs)) = ln r)"
proof -
  have keep: "take (length (ln r)) (ln (do_calls T r cs)) = ln r" if "CallClear \<notin> set cs"
    using do_calls_keeps [OF that, of T r] by auto
  show ?thesis
    using keep by (simp add: Add_eqs SetPrefix_def NewLog_def)
qed

theorem C10_prefix_read_at_call_witness:
  "CallClear \<notin> set [AssignPrefix ''NEW'', CallAddWarning [''low disk'']]
   \<and> ln (do_calls TrimSpace_ascii example_log [AssignPrefix ''NEW'', CallAddWarning [''low disk'']]) =
       ln example_log @ [\<lparr>Type = Warn, LogInfo.Prefix = ''NEW'', Message = ''low disk''\<rparr>]
   \<and> take (length (ln example_log))
        (ln (do_calls TrimSpace_ascii example_log [AssignPrefix ''NEW'', CallAddWarning [''low disk'']]))
       = ln example_log
   \<and> map LogInfo.Prefix (ln example_log) = [''APP'', ''APP'', ''APP'']"
proof -
  let ?cs = "[AssignPrefix ''NEW'', CallAddWarning [''low disk'']]"
  have 1: "CallClear \<notin> set ?cs"
    by simp
  have 3: "map LogInfo.Prefix (ln example_log) = [''APP'', ''APP'', ''APP'']"
    by (simp add: example_log_value)
  note inst = C10_prefix_read_at_call [where r = example_log and T = TrimSpace_ascii and cs = ?cs]
  from inst 1 have 4: "take (length (ln example_log)) (ln (do_calls TrimSpace_ascii example_log ?cs))
      = ln example_log"
    by blast
  have 5: "ln (do_calls TrimSpace_ascii example_log ?cs) =
       ln example_log @ [\<lparr>Type = Warn, LogInfo.Prefix = ''NEW'', Message = ''low disk''\<rparr>]"
    by (simp add: SetPrefix_def addMessage_def TrimSpace_ascii_examples)
  from 1 3 4 5 show ?thesis
    by blast
qed

end
